theory Spec2Isabelle
  imports Main "HOL-Library.Word"
begin

section \<open>Strings of the platform\<close>

text \<open>
  An Arduino \<open>String\<close> is a NUL-terminated character buffer. The model's \<open>string\<close> is the
  sequence of characters before the terminator, so \<open>c_str()\<close> and the constructor from a
  C string are the identity; \<open>length()\<close> is \<open>length\<close>. Memory exhaustion (a failing
  \<open>reserve\<close> or \<open>concat\<close>) is not modelled.
\<close>

text \<open>\<open>tolower\<close> of the C locale: only the 26 ASCII capitals change.\<close>

definition tolower :: "char \<Rightarrow> char" where
  "tolower c =
     (case map_of (zip ''ABCDEFGHIJKLMNOPQRSTUVWXYZ'' ''abcdefghijklmnopqrstuvwxyz'') c of
        Some lower \<Rightarrow> lower
      | None \<Rightarrow> c)"

text \<open>
  \<open>String::equalsIgnoreCase\<close> of the Arduino core: equal lengths and the same characters
  up to \<open>tolower\<close>.
\<close>

definition equalsIgnoreCase :: "string \<Rightarrow> string \<Rightarrow> bool" where
  "equalsIgnoreCase s1 s2 =
     (length s1 = length s2 \<and> map tolower s1 = map tolower s2)"

section \<open>Formatting six bytes (WifiControl.cpp, anonymous namespace)\<close>

text \<open>
  The output stream's rendering of an unsigned value under \<open>std::hex\<close>: the digits of
  the value in base 16, most significant first, at least one digit, lower case (no
  \<open>std::uppercase\<close> is set).
\<close>

definition hexDigit :: "nat \<Rightarrow> char" where
  "hexDigit d = ''0123456789abcdef'' ! d"

function hex :: "nat \<Rightarrow> string" where
  "hex n = (if n < 16 then [hexDigit n] else hex (n div 16) @ [hexDigit (n mod 16)])"
  by pat_completeness auto
termination
  by (relation "measure (\<lambda>n. n)") auto

declare hex.simps [simp del]

text \<open>
  \<open>std::setfill(c)\<close> with \<open>std::setw(w)\<close>: a field shorter than \<open>w\<close> is padded on the
  left (the stream's default adjustment); a longer one is written whole.
\<close>

definition setw_setfill :: "nat \<Rightarrow> char \<Rightarrow> string \<Rightarrow> string" where
  "setw_setfill w c field = replicate (w - length field) c @ field"

text \<open>
  The loop of \<open>format6Bytes\<close>: \<open>i\<close> runs from 0 while \<open>i < 6\<close>; \<open>stream\<close> is what has been
  written so far. \<open>bytes\<close> is the six-element array the callers pass.
\<close>

function format6Bytes_loop :: "8 word list \<Rightarrow> string \<Rightarrow> nat \<Rightarrow> string \<Rightarrow> string" where
  "format6Bytes_loop bytes delimiter i stream =
     (if i < 6 then
        format6Bytes_loop bytes delimiter (i + 1)
          ((if i \<noteq> 0 \<and> length delimiter > 0 then stream @ delimiter else stream)
             @ setw_setfill 2 (CHR ''0'') (hex (unat (bytes ! i))))
      else stream)"
  by pat_completeness auto
termination
  by (relation "measure (\<lambda>(bytes, delimiter, i, stream). 6 - i)") auto

declare format6Bytes_loop.simps [simp del]

definition format6Bytes :: "8 word list \<Rightarrow> string \<Rightarrow> string" where
  "format6Bytes bytes delimiter = format6Bytes_loop bytes delimiter 0 []"

text \<open>
  The specification's wording, for comparison: each byte is a group of two lower-case
  hexadecimal digits, and the groups are joined by the delimiter.
\<close>

definition spec_hexGroup :: "8 word \<Rightarrow> string" where
  "spec_hexGroup b = [hexDigit (unat b div 16), hexDigit (unat b mod 16)]"

fun spec_join :: "string \<Rightarrow> string list \<Rightarrow> string" where
  "spec_join delimiter [] = []"
| "spec_join delimiter [g] = g"
| "spec_join delimiter (g # gs) = g @ delimiter @ spec_join delimiter gs"

definition lowerHexChars :: "char set" where
  "lowerHexChars = set ''0123456789abcdef''"

section \<open>Random access-point secrets (WifiControl::generateRandomSecret)\<close>

definition minApSecretLength :: "32 word" where
  "minApSecretLength = 8"

definition getMinimumSecretLength :: "32 word" where
  "getMinimumSecretLength = minApSecretLength"

definition validChars :: string where
  "validChars = ''abcdefghjkmnopqrstuvwxyzABCDEFGHJKMNPQRSTUVWXYZ23456789.-,:$/''"

text \<open>
  The hardware random source is a parameter: \<open>esp_random k\<close> is the value the \<open>k\<close>-th call
  of this invocation returns. The loop counter is the source's \<open>unsigned\<close>.
\<close>

function generateRandomSecret_loop ::
  "(nat \<Rightarrow> 32 word) \<Rightarrow> 32 word \<Rightarrow> 32 word \<Rightarrow> string \<Rightarrow> string" where
  "generateRandomSecret_loop esp_random useLength i returnValue =
     (if i < useLength then
        generateRandomSecret_loop esp_random useLength (i + 1)
          (returnValue @ [validChars ! (unat (esp_random (unat i)) mod length validChars)])
      else returnValue)"
  by pat_completeness auto
termination
proof (relation "measure (\<lambda>(esp_random, useLength, i, returnValue). unat useLength - unat i)")
  show "wf (measure (\<lambda>(esp_random :: nat \<Rightarrow> 32 word, useLength :: 32 word, i :: 32 word,
                        returnValue :: string). unat useLength - unat i))"
    by simp
next
  fix esp_random :: "nat \<Rightarrow> 32 word" and useLength i :: "32 word" and returnValue :: string
  assume lt: "i < useLength"
  then have lt_nat: "unat i < unat useLength"
    by (simp add: word_less_nat_alt)
  moreover have "unat useLength < 2 ^ 32"
    using unsigned_less [of useLength] by simp
  ultimately have "unat i + 1 < 2 ^ 32"
    by simp
  then have "unat (i + 1) = Suc (unat i)"
    by (simp add: unat_word_ariths)
  with lt_nat
  have "unat useLength - unat (i + 1) < unat useLength - unat i"
    by simp
  then show
    "((esp_random, useLength, i + 1,
       returnValue @ [validChars ! (unat (esp_random (unat i)) mod length validChars)]),
      (esp_random, useLength, i, returnValue))
     \<in> measure (\<lambda>(esp_random, useLength, i, returnValue). unat useLength - unat i)"
    by simp
qed

declare generateRandomSecret_loop.simps [simp del]

definition generateRandomSecret :: "(nat \<Rightarrow> 32 word) \<Rightarrow> 32 word \<Rightarrow> string" where
  "generateRandomSecret esp_random len =
     (let useLength = (if len < minApSecretLength then minApSecretLength else len)
      in generateRandomSecret_loop esp_random useLength 0 [])"

section \<open>The platform: persistent stores, the WiFi stack, the hardware\<close>

text \<open>
  The model is the default build: none of the \<open>BASECAMP_*\<close> macros is defined, so the
  wireless branches of the preprocessor are the code. Logging (\<open>ESP_LOGx\<close>) has no effect
  on the state and is left out.
\<close>

datatype ConfigurationKey =
    deviceName | accessPointSecret | wifiConfigured | wifiEssid | wifiPassword
  | haDiscoveryPrefix | mqttActive | mqttHost | otaActive | otaPass

type_synonym ConfigurationMap = "ConfigurationKey \<rightharpoonup> string"

text \<open>A file of the flash file system: the stored configuration, or anything else.\<close>

datatype File = ConfigurationFile ConfigurationMap | DataFile string

datatype WiFiMode_t = WIFI_STA | WIFI_AP | WIFI_AP_STA

text \<open>
  Every call the code makes into a store, the network stack or the chip is recorded, in
  order, so that what is called, and before what, can be stated.
\<close>

datatype Call =
    PrefsBegin string bool
  | PrefsPutUInt string "32 word"
  | PrefsEnd
  | ConfigSet ConfigurationKey string
  | ConfigSave
  | ConfigReset
  | SpiffsFormat
  | EspRestart
  | WiFiOnEvent
  | WiFiBegin string string
  | WiFiSetHostname string
  | WiFiMode WiFiMode_t
  | WiFiSoftAP string "string option"
  | WiFiReconnect
  | MqttBegin string string string
  | OtaSetPassword string
  | OtaSetHostname string
  | OtaBegin
  | WebBegin
  | SntpInit

text \<open>
  \<open>nvs\<close> is the \<open>Preferences\<close> namespace \<open>basecamp\<close> (a key without a value is absent);
  \<open>spiffs\<close> maps a path of the flash file system to its file; \<open>calls\<close> is the record of
  calls so far. The remaining fields are what the hardware answers: the reset cause of
  this boot, the burned-in and the active link-layer address (six bytes each), and the
  values of the random source in the order they are drawn.
\<close>

record Platform =
  nvs :: "string \<rightharpoonup> 32 word"
  spiffs :: "string \<rightharpoonup> File"
  calls :: "Call list"
  rtc_get_reset_reason :: int
  efuse_mac :: "8 word list"
  wifi_mac :: "8 word list"
  esp_random :: "nat \<Rightarrow> 32 word"

definition call :: "Call \<Rightarrow> Platform \<Rightarrow> Platform" where
  "call c p = p\<lparr>calls := calls p @ [c]\<rparr>"

text \<open>
  \<open>Preferences\<close> of the Arduino core, with the namespace opening assumed to succeed:
  \<open>getUInt\<close> answers the default for an absent key, \<open>putUInt\<close> stores the value.
\<close>

definition Preferences_begin :: "string \<Rightarrow> bool \<Rightarrow> Platform \<Rightarrow> Platform" where
  "Preferences_begin name readOnly p = call (PrefsBegin name readOnly) p"

definition Preferences_getUInt :: "string \<Rightarrow> 32 word \<Rightarrow> Platform \<Rightarrow> 32 word" where
  "Preferences_getUInt key defaultValue p =
     (case nvs p key of Some v \<Rightarrow> v | None \<Rightarrow> defaultValue)"

definition Preferences_putUInt :: "string \<Rightarrow> 32 word \<Rightarrow> Platform \<Rightarrow> Platform" where
  "Preferences_putUInt key v p = call (PrefsPutUInt key v) (p\<lparr>nvs := (nvs p)(key \<mapsto> v)\<rparr>)"

definition Preferences_end :: "Platform \<Rightarrow> Platform" where
  "Preferences_end p = call PrefsEnd p"

definition SPIFFS_format :: "Platform \<Rightarrow> Platform" where
  "SPIFFS_format p = call SpiffsFormat (p\<lparr>spiffs := Map.empty\<rparr>)"

definition ESP_restart :: "Platform \<Rightarrow> Platform" where
  "ESP_restart p = call EspRestart p"

section \<open>The configuration store\<close>

text \<open>
  The class \<open>Configuration\<close> is a collaborator whose files are not among the sources: a
  string-keyed store with get, set, isSet, save and reset. The constructor of \<open>Basecamp\<close>
  names the file it is kept in.
\<close>

definition configurationFile :: string where
  "configurationFile = ''/basecamp.json''"

text \<open>
  Modelled from the spec: \<open>Configuration::get\<close>, the value stored under the key; a key
  that is not set reads as the empty string.
\<close>

definition Configuration_get :: "ConfigurationMap \<Rightarrow> ConfigurationKey \<Rightarrow> string" where
  "Configuration_get m k = (case m k of Some v \<Rightarrow> v | None \<Rightarrow> [])"

text \<open>Modelled from the spec: \<open>Configuration::isKeySet\<close>, whether the key has a value.\<close>

definition Configuration_isKeySet :: "ConfigurationMap \<Rightarrow> ConfigurationKey \<Rightarrow> bool" where
  "Configuration_isKeySet m k = (case m k of Some v \<Rightarrow> True | None \<Rightarrow> False)"

text \<open>
  Modelled from the spec: \<open>Configuration::set\<close>, which changes the value held in memory
  and nothing in the flash file system.
\<close>

definition Configuration_set ::
  "ConfigurationKey \<Rightarrow> string \<Rightarrow> ConfigurationMap \<times> Platform \<Rightarrow> ConfigurationMap \<times> Platform" where
  "Configuration_set k v = (\<lambda>(m, p). (m(k \<mapsto> v), call (ConfigSet k v) p))"

text \<open>
  Modelled from the spec: \<open>Configuration::save\<close>, which persists the values held in memory
  to the configuration file.
\<close>

definition Configuration_save :: "ConfigurationMap \<Rightarrow> Platform \<Rightarrow> Platform" where
  "Configuration_save m p =
     call ConfigSave (p\<lparr>spiffs := (spiffs p)(configurationFile \<mapsto> ConfigurationFile m)\<rparr>)"

text \<open>
  Modelled from the spec: \<open>Configuration::load\<close>, which reads the configuration file into
  memory and answers whether that worked; it fails when the file is missing or is not a
  configuration.
\<close>

definition Configuration_load :: "ConfigurationMap \<Rightarrow> Platform \<Rightarrow> bool \<times> ConfigurationMap" where
  "Configuration_load m p =
     (case spiffs p configurationFile of
        Some (ConfigurationFile stored) \<Rightarrow> (True, stored)
      | Some (DataFile d) \<Rightarrow> (False, m)
      | None \<Rightarrow> (False, m))"

text \<open>
  Modelled from the spec: \<open>Configuration::reset\<close>, which empties the store and persists
  the empty store.
\<close>

definition Configuration_reset :: "Platform \<Rightarrow> ConfigurationMap \<times> Platform" where
  "Configuration_reset p = (Map.empty, Configuration_save Map.empty (call ConfigReset p))"

section \<open>WifiControl\<close>

text \<open>
  Modelled from the spec: the operation mode is one of Uninitialized, Client and
  AccessPoint (the enumeration is declared in a header that is not among the sources);
  the source writes the last two \<open>Mode::client\<close> and \<open>Mode::accessPoint\<close>.
\<close>

datatype Mode = uninitialized | client | accessPoint

text \<open>
  An underscore at either end of a member's name in the source (\<open>operationMode_\<close>,
  \<open>_wifiEssid\<close>) is a prime at the end here.
\<close>

record WifiControl =
  operationMode' :: Mode
  wifiEssid' :: string
  wifiPassword' :: string
  wifiAPName' :: string

datatype WiFiEvent_t =
    SYSTEM_EVENT_STA_GOT_IP
  | SYSTEM_EVENT_STA_DISCONNECTED
  | SYSTEM_EVENT_OTHER nat

text \<open>
  Modelled from the spec: the default delimiter of the two address getters is declared in
  the missing header; \<open>begin\<close> calls \<open>getHardwareMacAddress()\<close> without an argument, and the
  access-point name is \<open>ESP32_\<close> followed by the hardware address, so the default is taken
  to be the empty string.
\<close>

definition defaultDelimiter :: string where
  "defaultDelimiter = []"

definition getHardwareMacAddress :: "string \<Rightarrow> Platform \<Rightarrow> string" where
  "getHardwareMacAddress delimiter p = format6Bytes (efuse_mac p) delimiter"

definition getSoftwareMacAddress :: "string \<Rightarrow> Platform \<Rightarrow> string" where
  "getSoftwareMacAddress delimiter p = format6Bytes (wifi_mac p) delimiter"

definition WifiControl_begin ::
  "string \<Rightarrow> string \<Rightarrow> string \<Rightarrow> string \<Rightarrow> string
     \<Rightarrow> WifiControl \<times> Platform \<Rightarrow> WifiControl \<times> Platform" where
  "WifiControl_begin essid password configured hostname apSecret = (\<lambda>(w, p).
     let wifiConfigured' = configured;
         w1 = w\<lparr>wifiEssid' := essid, wifiPassword' := password\<rparr>;
         w2 = (if length (wifiAPName' w1) = 0
               then w1\<lparr>wifiAPName' := ''ESP32_'' @ getHardwareMacAddress defaultDelimiter p\<rparr>
               else w1);
         p1 = call WiFiOnEvent p
     in if equalsIgnoreCase wifiConfigured' ''true'' then
          (w2\<lparr>operationMode' := client\<rparr>,
           call (WiFiSetHostname hostname)
             (call (WiFiBegin (wifiEssid' w2) (wifiPassword' w2)) p1))
        else
          (let p2 = call (WiFiMode WIFI_AP_STA) p1
           in (w2\<lparr>operationMode' := accessPoint\<rparr>,
               if length apSecret > 0
               then call (WiFiSoftAP (wifiAPName' w2) (Some apSecret)) p2
               else call (WiFiSoftAP (wifiAPName' w2) None) p2)))"

definition getOperationMode :: "WifiControl \<Rightarrow> Mode" where
  "getOperationMode w = operationMode' w"

text \<open>
  The event handler is static: it touches the platform only. Its local \<open>Preferences\<close>
  object is closed by its destructor when the handler returns.
\<close>

definition WiFiEvent :: "WiFiEvent_t \<Rightarrow> Platform \<Rightarrow> Platform" where
  "WiFiEvent event p =
     (let p1 = Preferences_begin ''basecamp'' False p;
          bootCounter = Preferences_getUInt ''bootcounter'' 0 p1;
          p2 = (case event of
                  SYSTEM_EVENT_STA_GOT_IP \<Rightarrow> Preferences_putUInt ''bootcounter'' 0 p1
                | SYSTEM_EVENT_STA_DISCONNECTED \<Rightarrow> call WiFiReconnect p1
                | SYSTEM_EVENT_OTHER n \<Rightarrow> p1)
      in Preferences_end p2)"

text \<open>A sequence of events, handled one after the other.\<close>

fun WiFiEvents :: "WiFiEvent_t list \<Rightarrow> Platform \<Rightarrow> Platform" where
  "WiFiEvents [] p = p"
| "WiFiEvents (event # events) p = WiFiEvents events (WiFiEvent event p)"

section \<open>Basecamp\<close>

datatype SetupModeWifiEncryption = none | secured

datatype ConfigurationUI = always | accessPointOnly

text \<open>
  \<open>ConfigurationUI::accessPoint\<close> is \<open>accessPointOnly\<close> here, the name \<open>accessPoint\<close> being
  the mode's. \<open>preferences\<close>, \<open>mqtt\<close> and \<open>web\<close> are handles into the platform.
\<close>

record Basecamp =
  configuration :: ConfigurationMap
  setupModeWifiEncryption' :: SetupModeWifiEncryption
  configurationUi' :: ConfigurationUI
  hostname :: string
  mac :: string
  network :: WifiControl

text \<open>
  What \<open>ESP.restart()\<close> leaves of the control flow: it does not return, so the function
  that reaches it ends there.
\<close>

datatype Flow = Continue | Restarted

definition checkResetReason :: "Basecamp \<times> Platform \<Rightarrow> Flow \<times> Basecamp \<times> Platform" where
  "checkResetReason = (\<lambda>(b, p0).
     let p = Preferences_begin ''basecamp'' False p0;
         reason = rtc_get_reset_reason p
     in if reason = 1 \<or> reason = 16 then
          (let bootCounter = Preferences_getUInt ''bootcounter'' 0 p + 1
           in if bootCounter > 3 then
                (let (m, p1) = Configuration_set wifiConfigured ''False'' (configuration b, p);
                     p2 = Configuration_save m p1;
                     p3 = Preferences_putUInt ''bootcounter'' 0 p2;
                     p4 = Preferences_end p3
                 in (Restarted, b\<lparr>configuration := m\<rparr>, ESP_restart p4))
              else if bootCounter > 2
                      \<and> equalsIgnoreCase (Configuration_get (configuration b) wifiConfigured) ''false''
              then
                (let p1 = SPIFFS_format p;
                     p2 = Preferences_putUInt ''bootcounter'' 0 p1;
                     p3 = Preferences_end p2
                 in (Restarted, b, ESP_restart p3))
              else
                (Continue, b, Preferences_end (Preferences_putUInt ''bootcounter'' bootCounter p)))
        else
          (Continue, b, Preferences_end (Preferences_putUInt ''bootcounter'' 0 p)))"

text \<open>
  \<open>isalnum\<close> of the C locale, and the two accessors of the Arduino \<open>String\<close> that tolerate
  an index past the end: \<open>charAt\<close> answers 0 there and \<open>setCharAt\<close> does nothing.
\<close>

definition isalnum :: "char \<Rightarrow> bool" where
  "isalnum c =
     (c \<in> set ''0123456789ABCDEFGHIJKLMNOPQRSTUVWXYZabcdefghijklmnopqrstuvwxyz'')"

definition charAt :: "string \<Rightarrow> nat \<Rightarrow> char" where
  "charAt s i = (if i < length s then s ! i else CHR 0x00)"

definition setCharAt :: "string \<Rightarrow> nat \<Rightarrow> char \<Rightarrow> string" where
  "setCharAt s i c = (if i < length s then s[i := c] else s)"

function cleanHostname_loop :: "nat \<Rightarrow> string \<Rightarrow> string" where
  "cleanHostname_loop i clean_hostname =
     (if i \<le> length clean_hostname then
        cleanHostname_loop (i + 1)
          (if \<not> isalnum (charAt clean_hostname i)
           then setCharAt clean_hostname i (CHR ''-'') else clean_hostname)
      else clean_hostname)"
  by pat_completeness auto
termination
  by (relation "measure (\<lambda>(i, clean_hostname). Suc (length clean_hostname) - i)")
     (auto simp: setCharAt_def)

declare cleanHostname_loop.simps [simp del]

definition cleanHostname :: "Basecamp \<Rightarrow> string" where
  "cleanHostname b =
     (let clean_hostname = Configuration_get (configuration b) deviceName
      in if clean_hostname = [] then ''basecamp-device''
         else cleanHostname_loop 0 (map tolower clean_hostname))"

definition defaultApSecretLength :: "32 word" where
  "defaultApSecretLength = 8"

definition shouldEnableConfigWebserver :: "Basecamp \<Rightarrow> bool" where
  "shouldEnableConfigWebserver b =
     (configurationUi' b = always
      \<or> (configurationUi' b = accessPointOnly \<and> getOperationMode (network b) = accessPoint))"

text \<open>
  \<open>Basecamp::begin\<close> in three parts, in the order of its body: what it does before it calls
  \<open>checkResetReason\<close>, that call, and what follows the call. The result is \<open>None\<close> when the
  device restarts inside \<open>checkResetReason\<close> (the function never returns to its caller),
  and the returned value otherwise. The calls into the MQTT client, the update service,
  the web server and the time service are recorded without their details.
\<close>

definition Basecamp_begin_prologue :: "string \<Rightarrow> Basecamp \<times> Platform \<Rightarrow> Basecamp \<times> Platform" where
  "Basecamp_begin_prologue fixedWiFiApEncryptionPassword = (\<lambda>(b, p).
     let b1 = (if length fixedWiFiApEncryptionPassword \<noteq> 0 then
                 (if length fixedWiFiApEncryptionPassword \<ge> unat getMinimumSecretLength
                  then b\<lparr>setupModeWifiEncryption' := secured\<rparr>
                  else b)
               else b);
         (loaded, m) = Configuration_load (configuration b1) p;
         (m1, p1) = (if \<not> loaded then Configuration_reset p else (m, p));
         b2 = b1\<lparr>configuration := m1\<rparr>;
         b3 = b2\<lparr>hostname := cleanHostname b2\<rparr>
     in (b3, p1))"

definition Basecamp_begin_epilogue :: "string \<Rightarrow> Basecamp \<times> Platform \<Rightarrow> Basecamp \<times> Platform" where
  "Basecamp_begin_epilogue fixedWiFiApEncryptionPassword = (\<lambda>(b, p).
     let (m, p1) =
           (if \<not> Configuration_isKeySet (configuration b) accessPointSecret
               \<or> length fixedWiFiApEncryptionPassword \<ge> unat getMinimumSecretLength
            then
              (let apSecret =
                     (if length fixedWiFiApEncryptionPassword < unat getMinimumSecretLength
                      then generateRandomSecret (esp_random p) defaultApSecretLength
                      else fixedWiFiApEncryptionPassword);
                   (m', p') = Configuration_set accessPointSecret apSecret (configuration b, p)
               in (m', Configuration_save m' p'))
            else (configuration b, p));
         b1 = b\<lparr>configuration := m\<rparr>;
         (w, p2) = WifiControl_begin
                     (Configuration_get m wifiEssid)
                     (Configuration_get m wifiPassword)
                     (Configuration_get m wifiConfigured)
                     (hostname b1)
                     (if setupModeWifiEncryption' b1 = none then []
                      else Configuration_get m accessPointSecret)
                     (network b1, p1);
         b2 = b1\<lparr>network := w, mac := getSoftwareMacAddress '':'' p2\<rparr>;
         p3 = (if \<not> equalsIgnoreCase (Configuration_get m mqttActive) ''false''
               then call (MqttBegin (Configuration_get m mqttHost) (hostname b2)
                                    (Configuration_get m haDiscoveryPrefix)) p2
               else p2);
         p4 = (if \<not> equalsIgnoreCase (Configuration_get m otaActive) ''false'' then
                 (let otaPass' = Configuration_get m otaPass;
                      p' = (if length otaPass' \<noteq> 0 then call (OtaSetPassword otaPass') p3 else p3)
                  in call OtaBegin (call (OtaSetHostname (hostname b2)) p'))
               else p3);
         p5 = (if shouldEnableConfigWebserver b2 then call WebBegin p4 else p4);
         p6 = call SntpInit p5
     in (b2, p6))"

definition Basecamp_begin ::
  "string \<Rightarrow> Basecamp \<times> Platform \<Rightarrow> bool option \<times> Basecamp \<times> Platform" where
  "Basecamp_begin fixedWiFiApEncryptionPassword s =
     (case checkResetReason (Basecamp_begin_prologue fixedWiFiApEncryptionPassword s) of
        (Restarted, s') \<Rightarrow> (None, s')
      | (Continue, s') \<Rightarrow> (Some True, Basecamp_begin_epilogue fixedWiFiApEncryptionPassword s'))"

section \<open>Notions the properties are stated with\<close>

text \<open>
  The test of the second escalation branch of \<open>checkResetReason\<close>, as the source writes
  it: the stored flag equals \<open>false\<close> up to case.
\<close>

definition wifiConfiguredIsFalse :: "Basecamp \<Rightarrow> bool" where
  "wifiConfiguredIsFalse b =
     equalsIgnoreCase (Configuration_get (configuration b) wifiConfigured) ''false''"

text \<open>
  The specification's wording, for comparison: the store reports the network as not
  configured when the stored flag is not \<open>true\<close> up to case. That is the condition under
  which the device starts as an access point; an unset or empty flag and any other value
  fall under it.
\<close>

definition spec_storeReportsNotConfigured :: "Basecamp \<Rightarrow> bool" where
  "spec_storeReportsNotConfigured b =
     (\<not> equalsIgnoreCase (Configuration_get (configuration b) wifiConfigured) ''true'')"

text \<open>The calls made between two states of the platform.\<close>

definition newCalls :: "Platform \<Rightarrow> Platform \<Rightarrow> Call list" where
  "newCalls p p' = drop (length (calls p)) (calls p')"

text \<open>
  The two escalation actions: formatting the flash file system, and writing the
  \<open>wifiConfigured\<close> flag of the configuration.
\<close>

fun isEscalation :: "Call \<Rightarrow> bool" where
  "isEscalation SpiffsFormat = True"
| "isEscalation (ConfigSet k v) = (k = wifiConfigured)"
| "isEscalation c = False"

text \<open>Concrete devices, for evaluating the model.\<close>

definition exampleBasecamp :: "string \<Rightarrow> Basecamp" where
  "exampleBasecamp flag =
     \<lparr>configuration = [wifiConfigured \<mapsto> flag, wifiEssid \<mapsto> ''home''],
      setupModeWifiEncryption' = none, configurationUi' = always,
      hostname = [], mac = [],
      network = \<lparr>operationMode' = uninitialized, wifiEssid' = [], wifiPassword' = [],
                 wifiAPName' = []\<rparr>\<rparr>"

text \<open>A device on which no configuration has been stored yet: no key is set.\<close>

definition freshBasecamp :: Basecamp where
  "freshBasecamp =
     \<lparr>configuration = Map.empty,
      setupModeWifiEncryption' = none, configurationUi' = always,
      hostname = [], mac = [],
      network = \<lparr>operationMode' = uninitialized, wifiEssid' = [], wifiPassword' = [],
                 wifiAPName' = []\<rparr>\<rparr>"

definition exampleRandom :: "nat \<Rightarrow> 32 word" where
  "exampleRandom k = 61 * of_nat k + 24"

definition examplePlatform :: "32 word \<Rightarrow> int \<Rightarrow> Platform" where
  "examplePlatform c reason =
     \<lparr>nvs = [''bootcounter'' \<mapsto> c],
      spiffs = [''/notes.txt'' \<mapsto> DataFile ''x'',
                ''/basecamp.json'' \<mapsto>
                  ConfigurationFile [wifiConfigured \<mapsto> ''true'', wifiEssid \<mapsto> ''home'',
                                     deviceName \<mapsto> ''Desk Lamp'']],
      calls = [],
      rtc_get_reset_reason = reason,
      efuse_mac = [0x24, 0x0A, 0xC4, 0x00, 0x01, 0x10],
      wifi_mac = [0x24, 0x0A, 0xC4, 0x00, 0x01, 0x10],
      esp_random = exampleRandom\<rparr>"

section \<open>Properties of the formatting and of the secrets\<close>

lemma hex_small: "n < 16 \<Longrightarrow> hex n = [hexDigit n]"
  by (simp add: hex.simps)

lemma hex_two: "16 \<le> n \<Longrightarrow> n < 256 \<Longrightarrow> hex n = [hexDigit (n div 16), hexDigit (n mod 16)]"
proof -
  assume a: "16 \<le> n" and b: "n < 256"
  then have "n div 16 < 16" by simp
  then have "hex (n div 16) = [hexDigit (n div 16)]" by (rule hex_small)
  with a show ?thesis by (subst hex.simps) simp
qed

lemma hexDigit_0: "hexDigit 0 = CHR ''0''"
  by (simp add: hexDigit_def)

lemma byte_field: "setw_setfill 2 (CHR ''0'') (hex (unat (b :: 8 word))) = spec_hexGroup b"
proof (cases "unat b < 16")
  case True
  then show ?thesis
    by (simp add: hex_small setw_setfill_def spec_hexGroup_def hexDigit_0)
next
  case False
  moreover have "unat b < 256" using unsigned_less [of b] by simp
  ultimately show ?thesis
    by (simp add: hex_two setw_setfill_def spec_hexGroup_def)
qed

lemma length_six: "length xs = 6 \<Longrightarrow> \<exists>a b c d e f. xs = [a, b, c, d, e, f]"
  by (auto simp: eval_nat_numeral length_Suc_conv)

lemma format6Bytes_six:
  "format6Bytes [a, b, c, d, e, f] delimiter =
     spec_join delimiter (map spec_hexGroup [a, b, c, d, e, f])"
  by (cases delimiter) (simp_all add: format6Bytes_def format6Bytes_loop.simps byte_field)

lemma hexDigit_lower: "d < 16 \<Longrightarrow> hexDigit d \<in> lowerHexChars"
  unfolding hexDigit_def lowerHexChars_def by (rule nth_mem) simp

lemma spec_hexGroup_lower: "set (spec_hexGroup b) \<subseteq> lowerHexChars"
proof -
  have "unat b < 256" using unsigned_less [of b] by simp
  then have "unat b div 16 < 16" by simp
  then show ?thesis by (simp add: spec_hexGroup_def hexDigit_lower)
qed

lemma spec_join_empty: "spec_join [] gs = concat gs"
  by (induction "[] :: string" gs rule: spec_join.induct) simp_all

text \<open>
  C6: for six bytes and any delimiter, \<open>format6Bytes\<close> writes each byte as a group of two
  lower-case hexadecimal digits, padded with a zero, and joins the six groups with the
  delimiter; an empty delimiter gives the groups one after the other; the bytes
  AB 01 2C 00 FF 10 with a colon give \<open>ab:01:2c:00:ff:10\<close>. The result is a function of
  the two arguments alone.
\<close>

theorem format6Bytes_spec:
  assumes "length bytes = 6"
  shows "format6Bytes bytes delimiter = spec_join delimiter (map spec_hexGroup bytes)
    \<and> (delimiter = [] \<longrightarrow> format6Bytes bytes delimiter = concat (map spec_hexGroup bytes))
    \<and> (\<forall>b \<in> set bytes. length (spec_hexGroup b) = 2 \<and> set (spec_hexGroup b) \<subseteq> lowerHexChars)
    \<and> format6Bytes [0xAB, 0x01, 0x2C, 0x00, 0xFF, 0x10] '':'' = ''ab:01:2c:00:ff:10''"
proof -
  from assms obtain a b c d e f where bs: "bytes = [a, b, c, d, e, f]"
    using length_six by blast
  have j: "format6Bytes bytes delimiter = spec_join delimiter (map spec_hexGroup bytes)"
    unfolding bs by (rule format6Bytes_six)
  have e: "delimiter = [] \<longrightarrow> format6Bytes bytes delimiter = concat (map spec_hexGroup bytes)"
    using j by (auto simp: spec_join_empty)
  have g: "\<forall>b \<in> set bytes. length (spec_hexGroup b) = 2 \<and> set (spec_hexGroup b) \<subseteq> lowerHexChars"
    using spec_hexGroup_lower by (simp add: spec_hexGroup_def)
  have x: "format6Bytes [0xAB, 0x01, 0x2C, 0x00, 0xFF, 0x10] '':'' = ''ab:01:2c:00:ff:10''"
    by (simp add: format6Bytes_six spec_hexGroup_def hexDigit_def)
  from j e g x show ?thesis by blast
qed

theorem format6Bytes_spec_witness:
  "length [0x00, 0x1A, 0xB2, 0x3C, 0x4D, 0xFE :: 8 word] = 6
   \<and> format6Bytes [0x00, 0x1A, 0xB2, 0x3C, 0x4D, 0xFE] ''-'' = ''00-1a-b2-3c-4d-fe''
   \<and> format6Bytes [0x00, 0x1A, 0xB2, 0x3C, 0x4D, 0xFE] [] = ''001ab23c4dfe''"
  using format6Bytes_spec [of "[0x00, 0x1A, 0xB2, 0x3C, 0x4D, 0xFE]" "''-''"]
        format6Bytes_spec [of "[0x00, 0x1A, 0xB2, 0x3C, 0x4D, 0xFE]" "[]"]
  by (simp add: spec_hexGroup_def hexDigit_def)

lemma word32_succ: "(i :: 32 word) < n \<Longrightarrow> unat (i + 1) = Suc (unat i)"
proof -
  assume "i < n"
  then have "unat i < unat n" by (simp add: word_less_nat_alt)
  moreover have "unat n < 2 ^ 32" using unsigned_less [of n] by simp
  ultimately have "unat i + 1 < 2 ^ 32" by simp
  then show ?thesis by (simp add: unat_word_ariths)
qed

lemma length_validChars: "length validChars = 61"
  by (simp add: validChars_def)

lemma validChars_pick: "validChars ! (k mod length validChars) \<in> set validChars"
  by (rule nth_mem) (simp add: length_validChars)

lemma generateRandomSecret_loop_length:
  "length (generateRandomSecret_loop rnd useLength i returnValue)
     = length returnValue + (unat useLength - unat i)"
proof (induction rnd useLength i returnValue rule: generateRandomSecret_loop.induct)
  case (1 rnd useLength i returnValue)
  show ?case
  proof (cases "i < useLength")
    case True
    then have "unat i < unat useLength" by (simp add: word_less_nat_alt)
    with True "1.IH" [OF True] show ?thesis
      by (subst generateRandomSecret_loop.simps) (simp add: word32_succ)
  next
    case False
    then have "unat useLength \<le> unat i" by (simp add: word_less_nat_alt)
    with False show ?thesis
      by (subst generateRandomSecret_loop.simps) simp
  qed
qed

lemma generateRandomSecret_loop_set:
  "set (generateRandomSecret_loop rnd useLength i returnValue)
     \<subseteq> set returnValue \<union> set validChars"
proof (induction rnd useLength i returnValue rule: generateRandomSecret_loop.induct)
  case (1 rnd useLength i returnValue)
  show ?case
  proof (cases "i < useLength")
    case True
    with "1.IH" [OF True] validChars_pick [of "unat (rnd (unat i))"] show ?thesis
      by (subst generateRandomSecret_loop.simps) auto
  next
    case False
    then show ?thesis
      by (subst generateRandomSecret_loop.simps) simp
  qed
qed

lemma no_capital_O: "CHR ''O'' \<notin> set validChars"
  by (simp add: validChars_def)

text \<open>
  C5: for every unsigned length, \<open>generateRandomSecret\<close> answers a string of exactly
  \<open>max length 8\<close> characters, each of them one of \<open>validChars\<close>, and none of them the
  capital letter O, whatever the random source delivers.
\<close>

theorem generateRandomSecret_spec:
  "length (generateRandomSecret rnd len) = max (unat len) 8
   \<and> set (generateRandomSecret rnd len) \<subseteq> set validChars
   \<and> CHR ''O'' \<notin> set (generateRandomSecret rnd len)"
proof -
  let ?useLength = "if len < minApSecretLength then minApSecretLength else len"
  have u: "unat ?useLength = max (unat len) 8"
    by (auto simp: minApSecretLength_def word_less_nat_alt)
  have l: "length (generateRandomSecret rnd len) = max (unat len) 8"
    using u by (simp add: generateRandomSecret_def generateRandomSecret_loop_length Let_def)
  have s: "set (generateRandomSecret rnd len) \<subseteq> set validChars"
    using generateRandomSecret_loop_set [of rnd ?useLength 0 "[]"]
    by (simp add: generateRandomSecret_def Let_def)
  from s no_capital_O have "CHR ''O'' \<notin> set (generateRandomSecret rnd len)"
    by blast
  with l s show ?thesis by blast
qed

theorem generateRandomSecret_spec_witness:
  "generateRandomSecret (\<lambda>k. 61 * of_nat k + 24) 3 = ''AAAAAAAA''
   \<and> length (generateRandomSecret (\<lambda>k. 61 * of_nat k + 24) 3) = 8"
  using generateRandomSecret_spec [of "\<lambda>k. 61 * of_nat k + 24" 3]
  by (simp add: generateRandomSecret_def minApSecretLength_def
        generateRandomSecret_loop.simps validChars_def)

section \<open>Properties of the reset check\<close>

lemmas platform_defs =
  Preferences_begin_def Preferences_getUInt_def Preferences_putUInt_def Preferences_end_def
  SPIFFS_format_def ESP_restart_def call_def Configuration_set_def Configuration_save_def

lemma checkResetReason_increment:
  assumes "rtc_get_reset_reason p = 1 \<or> rtc_get_reset_reason p = 16"
    and "\<not> Preferences_getUInt ''bootcounter'' 0 p + 1 > 3"
    and "\<not> (Preferences_getUInt ''bootcounter'' 0 p + 1 > 2 \<and> wifiConfiguredIsFalse b)"
  shows "checkResetReason (b, p) =
     (Continue, b,
      p\<lparr>nvs := (nvs p)(''bootcounter'' \<mapsto> Preferences_getUInt ''bootcounter'' 0 p + 1),
        calls := calls p @ [PrefsBegin ''basecamp'' False,
                            PrefsPutUInt ''bootcounter'' (Preferences_getUInt ''bootcounter'' 0 p + 1),
                            PrefsEnd]\<rparr>)"
  using assms
  by (auto simp: checkResetReason_def wifiConfiguredIsFalse_def platform_defs Let_def)

lemma checkResetReason_wipe:
  assumes "rtc_get_reset_reason p = 1 \<or> rtc_get_reset_reason p = 16"
    and "\<not> Preferences_getUInt ''bootcounter'' 0 p + 1 > 3"
    and "Preferences_getUInt ''bootcounter'' 0 p + 1 > 2"
    and "wifiConfiguredIsFalse b"
  shows "checkResetReason (b, p) =
     (Restarted, b,
      p\<lparr>nvs := (nvs p)(''bootcounter'' \<mapsto> 0), spiffs := Map.empty,
        calls := calls p @ [PrefsBegin ''basecamp'' False, SpiffsFormat,
                            PrefsPutUInt ''bootcounter'' 0, PrefsEnd, EspRestart]\<rparr>)"
  using assms
  by (auto simp: checkResetReason_def wifiConfiguredIsFalse_def platform_defs Let_def)

lemma checkResetReason_network:
  assumes "rtc_get_reset_reason p = 1 \<or> rtc_get_reset_reason p = 16"
    and "Preferences_getUInt ''bootcounter'' 0 p + 1 > 3"
  shows "checkResetReason (b, p) =
     (Restarted, b\<lparr>configuration := (configuration b)(wifiConfigured \<mapsto> ''False'')\<rparr>,
      p\<lparr>nvs := (nvs p)(''bootcounter'' \<mapsto> 0),
        spiffs := (spiffs p)(configurationFile \<mapsto>
                     ConfigurationFile ((configuration b)(wifiConfigured \<mapsto> ''False''))),
        calls := calls p @ [PrefsBegin ''basecamp'' False, ConfigSet wifiConfigured ''False'',
                            ConfigSave, PrefsPutUInt ''bootcounter'' 0, PrefsEnd, EspRestart]\<rparr>)"
  using assms
  by (auto simp: checkResetReason_def platform_defs Let_def)

lemma checkResetReason_other:
  assumes "rtc_get_reset_reason p \<noteq> 1" and "rtc_get_reset_reason p \<noteq> 16"
  shows "checkResetReason (b, p) =
     (Continue, b,
      p\<lparr>nvs := (nvs p)(''bootcounter'' \<mapsto> 0),
        calls := calls p @ [PrefsBegin ''basecamp'' False, PrefsPutUInt ''bootcounter'' 0,
                            PrefsEnd]\<rparr>)"
  using assms
  by (auto simp: checkResetReason_def platform_defs Let_def)


lemma false_is_not_true:
  "equalsIgnoreCase s ''false'' \<Longrightarrow> \<not> equalsIgnoreCase s ''true''"
  by (auto simp: equalsIgnoreCase_def)

text \<open>
  The wipe does not follow from the store reporting the network as not configured: on a
  device without a stored flag, which starts as an access point, the third suspicious
  boot in a row (stored counter 2, reset cause 16) formats nothing and does not restart;
  the counter is stored as 3.
\<close>

theorem checkResetReason_suspicious_counterexample:
  "rtc_get_reset_reason (examplePlatform 2 16) = 16
   \<and> Preferences_getUInt ''bootcounter'' 0 (examplePlatform 2 16) + 1 = 3
   \<and> spec_storeReportsNotConfigured freshBasecamp
   \<and> fst (checkResetReason (freshBasecamp, examplePlatform 2 16)) \<noteq> Restarted
   \<and> spiffs (snd (snd (checkResetReason (freshBasecamp, examplePlatform 2 16)))) ''/notes.txt''
        = Some (DataFile ''x'')
   \<and> nvs (snd (snd (checkResetReason (freshBasecamp, examplePlatform 2 16)))) ''bootcounter''
        = Some 3"
proof -
  have r: "rtc_get_reset_reason (examplePlatform 2 16) = 16"
    by (simp add: examplePlatform_def)
  have c: "Preferences_getUInt ''bootcounter'' 0 (examplePlatform 2 16) = 2"
    by (simp add: examplePlatform_def Preferences_getUInt_def)
  have u: "spec_storeReportsNotConfigured freshBasecamp"
    by (simp add: spec_storeReportsNotConfigured_def freshBasecamp_def Configuration_get_def
          equalsIgnoreCase_def)
  have f: "\<not> wifiConfiguredIsFalse freshBasecamp"
    by (simp add: wifiConfiguredIsFalse_def freshBasecamp_def Configuration_get_def
          equalsIgnoreCase_def)
  have "checkResetReason (freshBasecamp, examplePlatform 2 16) =
     (Continue, freshBasecamp,
      (examplePlatform 2 16)\<lparr>nvs := (nvs (examplePlatform 2 16))(''bootcounter'' \<mapsto>
            Preferences_getUInt ''bootcounter'' 0 (examplePlatform 2 16) + 1),
        calls := calls (examplePlatform 2 16) @ [PrefsBegin ''basecamp'' False,
            PrefsPutUInt ''bootcounter''
              (Preferences_getUInt ''bootcounter'' 0 (examplePlatform 2 16) + 1),
            PrefsEnd]\<rparr>)"
    using r c f by (intro checkResetReason_increment) simp_all
  with r c u show ?thesis
    by (simp add: examplePlatform_def)
qed

text \<open>
  C1, amended: in a boot whose reset cause is 1 or 16 and whose stored counter is \<open>c\<close> (an
  absent counter counts as 0; \<open>c + 1\<close> is the unsigned 32-bit increment the code
  computes), \<open>checkResetReason\<close> does one of three things. If \<open>c + 1 \<le> 2\<close>, and whenever
  neither escalation branch fires, it stores \<open>c + 1\<close> and returns without a restart. If
  \<open>c + 1 = 3\<close> and the stored flag equals \<open>false\<close> up to case, it formats the flash file
  system, stores 0, closes the counter store and restarts. If \<open>c + 1 = 3\<close> and the flag is
  anything else, an unset or empty flag included, no escalation branch fires: it stores 3
  and returns without a restart. If \<open>c + 1 > 3\<close>, whatever the flag, it marks the network
  as unconfigured, saves the configuration, stores 0, closes the counter store and
  restarts. A flag that equals \<open>false\<close> is one of those under which the store reports
  the network as not configured.
\<close>

theorem checkResetReason_suspicious:
  assumes sus: "rtc_get_reset_reason p = 1 \<or> rtc_get_reset_reason p = 16"
    and cnt: "Preferences_getUInt ''bootcounter'' 0 p = c"
    and res: "checkResetReason (b, p) = (flow, b', p')"
  shows "((c + 1 \<le> 2 \<or> (\<not> c + 1 > 3 \<and> \<not> (c + 1 > 2 \<and> wifiConfiguredIsFalse b))) \<longrightarrow>
            flow = Continue \<and> nvs p' ''bootcounter'' = Some (c + 1)
            \<and> EspRestart \<notin> set (newCalls p p') \<and> filter isEscalation (newCalls p p') = []
            \<and> b' = b \<and> spiffs p' = spiffs p)
       \<and> (c + 1 = 3 \<and> wifiConfiguredIsFalse b \<longrightarrow>
            flow = Restarted \<and> spiffs p' = Map.empty \<and> nvs p' ''bootcounter'' = Some 0
            \<and> newCalls p p' = [PrefsBegin ''basecamp'' False, SpiffsFormat,
                                PrefsPutUInt ''bootcounter'' 0, PrefsEnd, EspRestart]
            \<and> b' = b)
       \<and> (c + 1 = 3 \<and> \<not> wifiConfiguredIsFalse b \<longrightarrow>
            flow = Continue \<and> nvs p' ''bootcounter'' = Some 3
            \<and> newCalls p p' = [PrefsBegin ''basecamp'' False, PrefsPutUInt ''bootcounter'' 3,
                                PrefsEnd]
            \<and> b' = b \<and> spiffs p' = spiffs p)
       \<and> (c + 1 > 3 \<longrightarrow>
            flow = Restarted \<and> configuration b' = (configuration b)(wifiConfigured \<mapsto> ''False'')
            \<and> spiffs p' configurationFile = Some (ConfigurationFile (configuration b'))
            \<and> nvs p' ''bootcounter'' = Some 0
            \<and> newCalls p p' = [PrefsBegin ''basecamp'' False, ConfigSet wifiConfigured ''False'',
                                ConfigSave, PrefsPutUInt ''bootcounter'' 0, PrefsEnd, EspRestart])
       \<and> (wifiConfiguredIsFalse b \<longrightarrow> spec_storeReportsNotConfigured b)"
proof -
  have small: "c + 1 \<le> 2 \<Longrightarrow> \<not> c + 1 > 3 \<and> \<not> c + 1 > 2"
    by (simp add: word_le_nat_alt word_less_nat_alt)
  have inc: "flow = Continue \<and> nvs p' ''bootcounter'' = Some (c + 1)
            \<and> EspRestart \<notin> set (newCalls p p') \<and> filter isEscalation (newCalls p p') = []
            \<and> b' = b \<and> spiffs p' = spiffs p"
    if a: "c + 1 \<le> 2 \<or> (\<not> c + 1 > 3 \<and> \<not> (c + 1 > 2 \<and> wifiConfiguredIsFalse b))"
  proof -
    from a small have n3: "\<not> c + 1 > 3" and n2: "\<not> (c + 1 > 2 \<and> wifiConfiguredIsFalse b)"
      by blast+
    from checkResetReason_increment [OF sus, of b] n3 n2 cnt res show ?thesis
      by (auto simp: newCalls_def)
  qed
  have wipe: "flow = Restarted \<and> spiffs p' = Map.empty \<and> nvs p' ''bootcounter'' = Some 0
            \<and> newCalls p p' = [PrefsBegin ''basecamp'' False, SpiffsFormat,
                                PrefsPutUInt ''bootcounter'' 0, PrefsEnd, EspRestart]
            \<and> b' = b"
    if a: "c + 1 = 3 \<and> wifiConfiguredIsFalse b"
  proof -
    from a have "\<not> c + 1 > 3" and "c + 1 > 2" by simp_all
    with checkResetReason_wipe [OF sus, of b] a cnt res show ?thesis
      by (auto simp: newCalls_def)
  qed
  have stay: "flow = Continue \<and> nvs p' ''bootcounter'' = Some 3
            \<and> newCalls p p' = [PrefsBegin ''basecamp'' False, PrefsPutUInt ''bootcounter'' 3,
                                PrefsEnd]
            \<and> b' = b \<and> spiffs p' = spiffs p"
    if a: "c + 1 = 3 \<and> \<not> wifiConfiguredIsFalse b"
  proof -
    from a have n3: "\<not> c + 1 > 3" and n2: "\<not> (c + 1 > 2 \<and> wifiConfiguredIsFalse b)"
      by simp_all
    from checkResetReason_increment [OF sus, of b] n3 n2 cnt res a show ?thesis
      by (auto simp: newCalls_def)
  qed
  have net: "flow = Restarted \<and> configuration b' = (configuration b)(wifiConfigured \<mapsto> ''False'')
            \<and> spiffs p' configurationFile = Some (ConfigurationFile (configuration b'))
            \<and> nvs p' ''bootcounter'' = Some 0
            \<and> newCalls p p' = [PrefsBegin ''basecamp'' False, ConfigSet wifiConfigured ''False'',
                                ConfigSave, PrefsPutUInt ''bootcounter'' 0, PrefsEnd, EspRestart]"
    if a: "c + 1 > 3"
    using checkResetReason_network [OF sus, of b] a cnt res
    by (auto simp: newCalls_def)
  have sub: "wifiConfiguredIsFalse b \<longrightarrow> spec_storeReportsNotConfigured b"
    by (simp add: wifiConfiguredIsFalse_def spec_storeReportsNotConfigured_def false_is_not_true)
  from inc wipe stay net sub show ?thesis by blast
qed

theorem checkResetReason_suspicious_witness:
  "rtc_get_reset_reason (examplePlatform 0 1) = 1
   \<and> Preferences_getUInt ''bootcounter'' 0 (examplePlatform 0 1) = 0
   \<and> fst (checkResetReason (exampleBasecamp ''true'', examplePlatform 0 1)) = Continue
   \<and> nvs (snd (snd (checkResetReason (exampleBasecamp ''true'', examplePlatform 0 1))))
        ''bootcounter'' = Some 1
   \<and> wifiConfiguredIsFalse (exampleBasecamp ''false'')
   \<and> fst (checkResetReason (exampleBasecamp ''false'', examplePlatform 2 16)) = Restarted
   \<and> spiffs (snd (snd (checkResetReason (exampleBasecamp ''false'', examplePlatform 2 16))))
        ''/notes.txt'' = None
   \<and> \<not> wifiConfiguredIsFalse freshBasecamp
   \<and> fst (checkResetReason (freshBasecamp, examplePlatform 2 16)) = Continue
   \<and> nvs (snd (snd (checkResetReason (freshBasecamp, examplePlatform 2 16))))
        ''bootcounter'' = Some 3
   \<and> fst (checkResetReason (exampleBasecamp ''true'', examplePlatform 3 1)) = Restarted
   \<and> configuration (fst (snd (checkResetReason (exampleBasecamp ''true'', examplePlatform 3 1))))
        wifiConfigured = Some ''False''"
proof -
  have r1: "rtc_get_reset_reason (examplePlatform 0 1) = 1 \<or> rtc_get_reset_reason (examplePlatform 0 1) = 16"
    and r2: "rtc_get_reset_reason (examplePlatform 2 16) = 1 \<or> rtc_get_reset_reason (examplePlatform 2 16) = 16"
    and r3: "rtc_get_reset_reason (examplePlatform 3 1) = 1 \<or> rtc_get_reset_reason (examplePlatform 3 1) = 16"
    by (simp_all add: examplePlatform_def)
  have c1: "Preferences_getUInt ''bootcounter'' 0 (examplePlatform 0 1) = 0"
    and c2: "Preferences_getUInt ''bootcounter'' 0 (examplePlatform 2 16) = 2"
    and c3: "Preferences_getUInt ''bootcounter'' 0 (examplePlatform 3 1) = 3"
    by (simp_all add: examplePlatform_def Preferences_getUInt_def)
  have u: "wifiConfiguredIsFalse (exampleBasecamp ''false'')"
    by (simp add: wifiConfiguredIsFalse_def exampleBasecamp_def Configuration_get_def
          equalsIgnoreCase_def tolower_def)
  have f: "\<not> wifiConfiguredIsFalse freshBasecamp"
    by (simp add: wifiConfiguredIsFalse_def freshBasecamp_def Configuration_get_def
          equalsIgnoreCase_def)
  let ?r1 = "checkResetReason (exampleBasecamp ''true'', examplePlatform 0 1)"
  let ?r2 = "checkResetReason (exampleBasecamp ''false'', examplePlatform 2 16)"
  let ?r3 = "checkResetReason (exampleBasecamp ''true'', examplePlatform 3 1)"
  let ?r4 = "checkResetReason (freshBasecamp, examplePlatform 2 16)"
  have e1: "?r1 = (fst ?r1, fst (snd ?r1), snd (snd ?r1))"
    and e2: "?r2 = (fst ?r2, fst (snd ?r2), snd (snd ?r2))"
    and e3: "?r3 = (fst ?r3, fst (snd ?r3), snd (snd ?r3))"
    and e4: "?r4 = (fst ?r4, fst (snd ?r4), snd (snd ?r4))"
    by simp_all
  from checkResetReason_suspicious [OF r1 c1 e1] checkResetReason_suspicious [OF r2 c2 e2]
       checkResetReason_suspicious [OF r3 c3 e3] checkResetReason_suspicious [OF r2 c2 e4] u f c1
  show ?thesis
    by (simp add: examplePlatform_def)
qed

text \<open>
  C2: in a boot whose reset cause is neither 1 nor 16, \<open>checkResetReason\<close> stores 0 as the
  counter whatever it was before, performs no escalation action, and returns without a
  restart.
\<close>

theorem checkResetReason_intentional:
  assumes n1: "rtc_get_reset_reason p \<noteq> 1" and n16: "rtc_get_reset_reason p \<noteq> 16"
    and res: "checkResetReason (b, p) = (flow, b', p')"
  shows "flow = Continue
       \<and> nvs p' ''bootcounter'' = Some 0
       \<and> Preferences_getUInt ''bootcounter'' d p' = 0
       \<and> filter isEscalation (newCalls p p') = []
       \<and> EspRestart \<notin> set (newCalls p p')
       \<and> newCalls p p' = [PrefsBegin ''basecamp'' False, PrefsPutUInt ''bootcounter'' 0, PrefsEnd]
       \<and> b' = b \<and> spiffs p' = spiffs p"
  using checkResetReason_other [OF n1 n16, of b] res
  by (auto simp: newCalls_def Preferences_getUInt_def)

theorem checkResetReason_intentional_witness:
  "rtc_get_reset_reason (examplePlatform 3 12) \<noteq> 1 \<and> rtc_get_reset_reason (examplePlatform 3 12) \<noteq> 16
   \<and> nvs (examplePlatform 3 12) ''bootcounter'' = Some 3
   \<and> fst (checkResetReason (exampleBasecamp ''false'', examplePlatform 3 12)) = Continue
   \<and> nvs (snd (snd (checkResetReason (exampleBasecamp ''false'', examplePlatform 3 12))))
        ''bootcounter'' = Some 0"
proof -
  let ?r = "checkResetReason (exampleBasecamp ''false'', examplePlatform 3 12)"
  have n1: "rtc_get_reset_reason (examplePlatform 3 12) \<noteq> 1"
    and n16: "rtc_get_reset_reason (examplePlatform 3 12) \<noteq> 16"
    by (simp_all add: examplePlatform_def)
  have e: "?r = (fst ?r, fst (snd ?r), snd (snd ?r))" by simp
  from checkResetReason_intentional [OF n1 n16 e] n1 n16 show ?thesis
    by (simp add: examplePlatform_def)
qed

text \<open>
  C9: one run of \<open>checkResetReason\<close> performs at most one escalation action, never both;
  it restarts exactly on the escalation paths, and there the write of the counter and
  the closing of the counter store are the two calls just before the restart, which is
  the last call.
\<close>

theorem checkResetReason_one_escalation:
  assumes res: "checkResetReason (b, p) = (flow, b', p')"
  shows "length (filter isEscalation (newCalls p p')) \<le> 1
       \<and> \<not> (SpiffsFormat \<in> set (newCalls p p') \<and> ConfigSave \<in> set (newCalls p p'))
       \<and> (EspRestart \<in> set (newCalls p p') \<longleftrightarrow> flow = Restarted)
       \<and> (flow = Restarted \<longrightarrow>
            (\<exists>pre. newCalls p p' = pre @ [PrefsPutUInt ''bootcounter'' 0, PrefsEnd, EspRestart]
                   \<and> EspRestart \<notin> set pre \<and> length (filter isEscalation pre) = 1)
            \<and> nvs p' ''bootcounter'' = Some 0)
       \<and> (flow = Continue \<longrightarrow> filter isEscalation (newCalls p p') = [])"
proof -
  let ?n = "Preferences_getUInt ''bootcounter'' 0 p + 1"
  consider
      (other) "rtc_get_reset_reason p \<noteq> 1" "rtc_get_reset_reason p \<noteq> 16"
    | (network) "rtc_get_reset_reason p = 1 \<or> rtc_get_reset_reason p = 16" "?n > 3"
    | (wipe) "rtc_get_reset_reason p = 1 \<or> rtc_get_reset_reason p = 16" "\<not> ?n > 3" "?n > 2"
        "wifiConfiguredIsFalse b"
    | (increment) "rtc_get_reset_reason p = 1 \<or> rtc_get_reset_reason p = 16" "\<not> ?n > 3"
        "\<not> (?n > 2 \<and> wifiConfiguredIsFalse b)"
    by blast
  then show ?thesis
  proof cases
    case other
    from checkResetReason_other [OF other, of b] res show ?thesis
      by (auto simp: newCalls_def)
  next
    case network
    from checkResetReason_network [OF network, of b] res show ?thesis
      by (auto simp: newCalls_def)
  next
    case wipe
    from checkResetReason_wipe [OF wipe] res show ?thesis
      by (auto simp: newCalls_def)
  next
    case increment
    from checkResetReason_increment [OF increment] res show ?thesis
      by (auto simp: newCalls_def)
  qed
qed

theorem checkResetReason_one_escalation_witness:
  "newCalls (examplePlatform 2 16)
     (snd (snd (checkResetReason (exampleBasecamp ''false'', examplePlatform 2 16))))
     = [PrefsBegin ''basecamp'' False, SpiffsFormat, PrefsPutUInt ''bootcounter'' 0, PrefsEnd,
        EspRestart]
   \<and> fst (checkResetReason (exampleBasecamp ''false'', examplePlatform 2 16)) = Restarted
   \<and> length (filter isEscalation (newCalls (examplePlatform 2 16)
        (snd (snd (checkResetReason (exampleBasecamp ''false'', examplePlatform 2 16)))))) \<le> 1"
proof -
  let ?r = "checkResetReason (exampleBasecamp ''false'', examplePlatform 2 16)"
  have e: "?r = (fst ?r, fst (snd ?r), snd (snd ?r))" by simp
  have v: "?r = (Restarted, exampleBasecamp ''false'',
      (examplePlatform 2 16)\<lparr>nvs := (nvs (examplePlatform 2 16))(''bootcounter'' \<mapsto> 0),
        spiffs := Map.empty,
        calls := calls (examplePlatform 2 16) @ [PrefsBegin ''basecamp'' False, SpiffsFormat,
                            PrefsPutUInt ''bootcounter'' 0, PrefsEnd, EspRestart]\<rparr>)"
    by (rule checkResetReason_wipe)
       (simp_all add: examplePlatform_def Preferences_getUInt_def wifiConfiguredIsFalse_def
          exampleBasecamp_def Configuration_get_def equalsIgnoreCase_def tolower_def)
  from checkResetReason_one_escalation [OF e] v show ?thesis
    by (simp add: newCalls_def)
qed


text \<open>
  The counter never leaves the range 0 to 3: whatever it was, \<open>checkResetReason\<close> leaves
  at most 3 in the store, and the event handler keeps it there. On a store that only this
  code writes, the increment in \<open>checkResetReason\<close> therefore never wraps around.
\<close>

lemma checkResetReason_counter_bounded:
  "Preferences_getUInt ''bootcounter'' 0 (snd (snd (checkResetReason (b, p)))) \<le> 3"
proof -
  let ?n = "Preferences_getUInt ''bootcounter'' 0 p + 1"
  consider
      (other) "rtc_get_reset_reason p \<noteq> 1" "rtc_get_reset_reason p \<noteq> 16"
    | (network) "rtc_get_reset_reason p = 1 \<or> rtc_get_reset_reason p = 16" "?n > 3"
    | (wipe) "rtc_get_reset_reason p = 1 \<or> rtc_get_reset_reason p = 16" "\<not> ?n > 3" "?n > 2"
        "wifiConfiguredIsFalse b"
    | (increment) "rtc_get_reset_reason p = 1 \<or> rtc_get_reset_reason p = 16" "\<not> ?n > 3"
        "\<not> (?n > 2 \<and> wifiConfiguredIsFalse b)"
    by blast
  then show ?thesis
  proof cases
    case other
    then show ?thesis
      by (simp add: checkResetReason_other Preferences_getUInt_def)
  next
    case network
    then show ?thesis
      by (simp add: checkResetReason_network Preferences_getUInt_def)
  next
    case wipe
    then show ?thesis
      by (simp add: checkResetReason_wipe Preferences_getUInt_def)
  next
    case increment
    from increment(2) have "?n \<le> 3" by simp
    with checkResetReason_increment [OF increment] show ?thesis
      by (simp add: Preferences_getUInt_def)
  qed
qed

lemma WiFiEvent_counter_bounded:
  "Preferences_getUInt ''bootcounter'' 0 p \<le> 3 \<Longrightarrow>
     Preferences_getUInt ''bootcounter'' 0 (WiFiEvent event p) \<le> 3"
  by (cases event) (simp_all add: WiFiEvent_def platform_defs Let_def)

section \<open>Properties of the event handler\<close>

lemma WiFiEvent_got_ip_eq:
  "WiFiEvent SYSTEM_EVENT_STA_GOT_IP p =
     p\<lparr>nvs := (nvs p)(''bootcounter'' \<mapsto> 0),
       calls := calls p @ [PrefsBegin ''basecamp'' False, PrefsPutUInt ''bootcounter'' 0, PrefsEnd]\<rparr>"
  by (simp add: WiFiEvent_def platform_defs Let_def)

lemma WiFiEvent_disconnected_eq:
  "WiFiEvent SYSTEM_EVENT_STA_DISCONNECTED p =
     p\<lparr>calls := calls p @ [PrefsBegin ''basecamp'' False, WiFiReconnect, PrefsEnd]\<rparr>"
  by (simp add: WiFiEvent_def platform_defs Let_def)

lemma WiFiEvents_got_ip_counter:
  "nvs p ''bootcounter'' = Some 0 \<Longrightarrow>
     nvs (WiFiEvents (replicate n SYSTEM_EVENT_STA_GOT_IP) p) ''bootcounter'' = Some 0"
  by (induction n arbitrary: p) (simp_all add: WiFiEvent_got_ip_eq)

text \<open>
  C3: the handler, called with the address-acquired event, sets the stored counter to 0;
  a second such event changes nothing in the store, and after any sequence of one or
  more such events the counter is 0.
\<close>

theorem WiFiEvent_got_ip_resets:
  "nvs (WiFiEvent SYSTEM_EVENT_STA_GOT_IP p) ''bootcounter'' = Some 0
   \<and> Preferences_getUInt ''bootcounter'' d (WiFiEvent SYSTEM_EVENT_STA_GOT_IP p) = 0
   \<and> nvs (WiFiEvent SYSTEM_EVENT_STA_GOT_IP (WiFiEvent SYSTEM_EVENT_STA_GOT_IP p))
       = nvs (WiFiEvent SYSTEM_EVENT_STA_GOT_IP p)
   \<and> nvs (WiFiEvents (replicate (Suc n) SYSTEM_EVENT_STA_GOT_IP) p) ''bootcounter'' = Some 0"
proof -
  have one: "nvs (WiFiEvent SYSTEM_EVENT_STA_GOT_IP p) ''bootcounter'' = Some 0"
    by (simp add: WiFiEvent_got_ip_eq)
  have rd: "Preferences_getUInt ''bootcounter'' d (WiFiEvent SYSTEM_EVENT_STA_GOT_IP p) = 0"
    using one by (simp add: Preferences_getUInt_def)
  have idem: "nvs (WiFiEvent SYSTEM_EVENT_STA_GOT_IP (WiFiEvent SYSTEM_EVENT_STA_GOT_IP p))
       = nvs (WiFiEvent SYSTEM_EVENT_STA_GOT_IP p)"
    by (simp add: WiFiEvent_got_ip_eq)
  have many: "nvs (WiFiEvents (replicate (Suc n) SYSTEM_EVENT_STA_GOT_IP) p) ''bootcounter'' = Some 0"
    using WiFiEvents_got_ip_counter [OF one, of n] by simp
  from one rd idem many show ?thesis by blast
qed

theorem WiFiEvent_got_ip_resets_witness:
  "nvs (examplePlatform 3 1) ''bootcounter'' = Some 3
   \<and> nvs (WiFiEvent SYSTEM_EVENT_STA_GOT_IP (examplePlatform 3 1)) ''bootcounter'' = Some 0
   \<and> nvs (WiFiEvents [SYSTEM_EVENT_STA_GOT_IP, SYSTEM_EVENT_STA_GOT_IP] (examplePlatform 3 1))
        ''bootcounter'' = Some 0"
  using WiFiEvent_got_ip_resets [of "examplePlatform 3 1" 0 1]
  by (simp add: examplePlatform_def)

lemma WiFiEvents_disconnected:
  "count_list (calls (WiFiEvents (replicate n SYSTEM_EVENT_STA_DISCONNECTED) p)) WiFiReconnect
     = count_list (calls p) WiFiReconnect + n
   \<and> nvs (WiFiEvents (replicate n SYSTEM_EVENT_STA_DISCONNECTED) p) = nvs p"
  by (induction n arbitrary: p) (simp_all add: WiFiEvent_disconnected_eq)

text \<open>
  C4: the handler, called with the link-lost event, requests a reconnect at once and
  writes nothing to the counter store: its only calls are the opening of the store, the
  reconnect and the closing of the store. It does so whatever the state and however
  often: \<open>n\<close> such events in a row request \<open>n\<close> reconnects and leave the counter as it was.
\<close>

theorem WiFiEvent_disconnected_reconnects:
  "WiFiEvent SYSTEM_EVENT_STA_DISCONNECTED p =
     p\<lparr>calls := calls p @ [PrefsBegin ''basecamp'' False, WiFiReconnect, PrefsEnd]\<rparr>
   \<and> newCalls p (WiFiEvent SYSTEM_EVENT_STA_DISCONNECTED p)
       = [PrefsBegin ''basecamp'' False, WiFiReconnect, PrefsEnd]
   \<and> nvs (WiFiEvent SYSTEM_EVENT_STA_DISCONNECTED p) = nvs p
   \<and> count_list (calls (WiFiEvents (replicate n SYSTEM_EVENT_STA_DISCONNECTED) p)) WiFiReconnect
       = count_list (calls p) WiFiReconnect + n
   \<and> nvs (WiFiEvents (replicate n SYSTEM_EVENT_STA_DISCONNECTED) p) = nvs p"
  using WiFiEvents_disconnected [of n p]
  by (simp add: WiFiEvent_disconnected_eq newCalls_def)

theorem WiFiEvent_disconnected_reconnects_witness:
  "calls (WiFiEvent SYSTEM_EVENT_STA_DISCONNECTED (examplePlatform 2 1))
     = [PrefsBegin ''basecamp'' False, WiFiReconnect, PrefsEnd]
   \<and> nvs (WiFiEvent SYSTEM_EVENT_STA_DISCONNECTED (examplePlatform 2 1)) ''bootcounter'' = Some 2
   \<and> count_list (calls (WiFiEvents
        [SYSTEM_EVENT_STA_DISCONNECTED, SYSTEM_EVENT_STA_DISCONNECTED,
         SYSTEM_EVENT_STA_DISCONNECTED] (examplePlatform 2 1))) WiFiReconnect = 3"
proof -
  have r: "replicate 3 SYSTEM_EVENT_STA_DISCONNECTED =
      [SYSTEM_EVENT_STA_DISCONNECTED, SYSTEM_EVENT_STA_DISCONNECTED,
       SYSTEM_EVENT_STA_DISCONNECTED]"
    by (simp add: numeral_3_eq_3)
  have c: "calls (examplePlatform 2 1) = []" and n: "nvs (examplePlatform 2 1) ''bootcounter'' = Some 2"
    by (simp_all add: examplePlatform_def)
  note t = WiFiEvent_disconnected_reconnects [of "examplePlatform 2 1" 3, unfolded r]
  from t have nc: "newCalls (examplePlatform 2 1)
      (WiFiEvent SYSTEM_EVENT_STA_DISCONNECTED (examplePlatform 2 1))
      = [PrefsBegin ''basecamp'' False, WiFiReconnect, PrefsEnd]"
    by blast
  from t have nv: "nvs (WiFiEvent SYSTEM_EVENT_STA_DISCONNECTED (examplePlatform 2 1))
      = nvs (examplePlatform 2 1)"
    by blast
  from t have cnt: "count_list (calls (WiFiEvents
        [SYSTEM_EVENT_STA_DISCONNECTED, SYSTEM_EVENT_STA_DISCONNECTED,
         SYSTEM_EVENT_STA_DISCONNECTED] (examplePlatform 2 1))) WiFiReconnect
      = count_list (calls (examplePlatform 2 1)) WiFiReconnect + 3"
    by blast
  from nc c have "calls (WiFiEvent SYSTEM_EVENT_STA_DISCONNECTED (examplePlatform 2 1))
      = [PrefsBegin ''basecamp'' False, WiFiReconnect, PrefsEnd]"
    by (simp add: newCalls_def)
  moreover from nv n
  have "nvs (WiFiEvent SYSTEM_EVENT_STA_DISCONNECTED (examplePlatform 2 1)) ''bootcounter'' = Some 2"
    by simp
  moreover from cnt c have "count_list (calls (WiFiEvents
        [SYSTEM_EVENT_STA_DISCONNECTED, SYSTEM_EVENT_STA_DISCONNECTED,
         SYSTEM_EVENT_STA_DISCONNECTED] (examplePlatform 2 1))) WiFiReconnect = 3"
    by simp
  ultimately show ?thesis by blast
qed


section \<open>Properties of the mode selection\<close>

lemma tolower_eq_t: "tolower x = CHR ''t'' \<longleftrightarrow> x = CHR ''t'' \<or> x = CHR ''T''"
  by (auto simp: tolower_def split: if_splits)
lemma tolower_eq_r: "tolower x = CHR ''r'' \<longleftrightarrow> x = CHR ''r'' \<or> x = CHR ''R''"
  by (auto simp: tolower_def split: if_splits)
lemma tolower_eq_u: "tolower x = CHR ''u'' \<longleftrightarrow> x = CHR ''u'' \<or> x = CHR ''U''"
  by (auto simp: tolower_def split: if_splits)
lemma tolower_eq_e: "tolower x = CHR ''e'' \<longleftrightarrow> x = CHR ''e'' \<or> x = CHR ''E''"
  by (auto simp: tolower_def split: if_splits)

lemma tolower_true: "map tolower ''true'' = ''true''"
  by (simp add: tolower_def)

lemma equalsIgnoreCase_true:
  "equalsIgnoreCase s ''true'' \<longleftrightarrow>
     (\<exists>a b c d. s = [a, b, c, d]
        \<and> (a = CHR ''t'' \<or> a = CHR ''T'') \<and> (b = CHR ''r'' \<or> b = CHR ''R'')
        \<and> (c = CHR ''u'' \<or> c = CHR ''U'') \<and> (d = CHR ''e'' \<or> d = CHR ''E''))"
proof
  assume "equalsIgnoreCase s ''true''"
  then have "length s = length ''true'' \<and> map tolower s = map tolower ''true''"
    by (simp only: equalsIgnoreCase_def)
  then have l: "length s = 4" and m: "map tolower s = ''true''"
    unfolding tolower_true by simp_all
  from l obtain a b c d where s: "s = [a, b, c, d]"
    by (auto simp: eval_nat_numeral length_Suc_conv)
  with m have "tolower a = CHR ''t''" "tolower b = CHR ''r''" "tolower c = CHR ''u''"
    "tolower d = CHR ''e''"
    by simp_all
  with s show "\<exists>a b c d. s = [a, b, c, d]
        \<and> (a = CHR ''t'' \<or> a = CHR ''T'') \<and> (b = CHR ''r'' \<or> b = CHR ''R'')
        \<and> (c = CHR ''u'' \<or> c = CHR ''U'') \<and> (d = CHR ''e'' \<or> d = CHR ''E'')"
    by (simp add: tolower_eq_t tolower_eq_r tolower_eq_u tolower_eq_e)
next
  assume "\<exists>a b c d. s = [a, b, c, d]
        \<and> (a = CHR ''t'' \<or> a = CHR ''T'') \<and> (b = CHR ''r'' \<or> b = CHR ''R'')
        \<and> (c = CHR ''u'' \<or> c = CHR ''U'') \<and> (d = CHR ''e'' \<or> d = CHR ''E'')"
  then obtain a b c d where s: "s = [a, b, c, d]"
    and "tolower a = CHR ''t''" "tolower b = CHR ''r''" "tolower c = CHR ''u''"
    "tolower d = CHR ''e''"
    by (auto simp: tolower_eq_t tolower_eq_r tolower_eq_u tolower_eq_e)
  then have "length s = length ''true'' \<and> map tolower s = ''true''"
    by simp
  then show "equalsIgnoreCase s ''true''"
    by (simp only: equalsIgnoreCase_def tolower_true)
qed

lemma WifiControl_begin_client:
  assumes "equalsIgnoreCase configured ''true''"
  shows "WifiControl_begin essid password configured host apSecret (w, p) =
     (w\<lparr>wifiEssid' := essid, wifiPassword' := password,
        wifiAPName' := (if wifiAPName' w = []
                        then ''ESP32_'' @ getHardwareMacAddress defaultDelimiter p
                        else wifiAPName' w),
        operationMode' := client\<rparr>,
      p\<lparr>calls := calls p @ [WiFiOnEvent, WiFiBegin essid password, WiFiSetHostname host]\<rparr>)"
  using assms by (simp add: WifiControl_begin_def call_def Let_def)

lemma WifiControl_begin_ap:
  assumes "\<not> equalsIgnoreCase configured ''true''"
  shows "WifiControl_begin essid password configured host apSecret (w, p) =
     (w\<lparr>wifiEssid' := essid, wifiPassword' := password,
        wifiAPName' := (if wifiAPName' w = []
                        then ''ESP32_'' @ getHardwareMacAddress defaultDelimiter p
                        else wifiAPName' w),
        operationMode' := accessPoint\<rparr>,
      p\<lparr>calls := calls p @ [WiFiOnEvent, WiFiMode WIFI_AP_STA,
          WiFiSoftAP (if wifiAPName' w = []
                      then ''ESP32_'' @ getHardwareMacAddress defaultDelimiter p
                      else wifiAPName' w)
                     (if apSecret = [] then None else Some apSecret)]\<rparr>)"
  using assms by (simp add: WifiControl_begin_def call_def Let_def)

text \<open>
  C7: \<open>WifiControl::begin\<close> ends in client mode, with a connection to the given network
  name and password started, when the configured flag equals \<open>true\<close> up to case (that is,
  when it is one of the sixteen spellings of the four letters), and in access-point mode
  for every other flag, the empty one included.
\<close>

theorem WifiControl_begin_mode:
  "getOperationMode (fst (WifiControl_begin essid password configured host apSecret (w, p)))
     = (if equalsIgnoreCase configured ''true'' then client else accessPoint)
   \<and> (equalsIgnoreCase configured ''true'' \<longrightarrow>
        newCalls p (snd (WifiControl_begin essid password configured host apSecret (w, p)))
          = [WiFiOnEvent, WiFiBegin essid password, WiFiSetHostname host])
   \<and> getOperationMode (fst (WifiControl_begin essid password [] host apSecret (w, p)))
        = accessPoint
   \<and> (equalsIgnoreCase configured ''true'' \<longleftrightarrow>
        (\<exists>a b c d. configured = [a, b, c, d]
          \<and> (a = CHR ''t'' \<or> a = CHR ''T'') \<and> (b = CHR ''r'' \<or> b = CHR ''R'')
          \<and> (c = CHR ''u'' \<or> c = CHR ''U'') \<and> (d = CHR ''e'' \<or> d = CHR ''E'')))"
proof -
  have empty: "\<not> equalsIgnoreCase [] ''true''"
    by (simp add: equalsIgnoreCase_def)
  have m: "getOperationMode (fst (WifiControl_begin essid password configured host apSecret (w, p)))
     = (if equalsIgnoreCase configured ''true'' then client else accessPoint)"
    by (simp add: WifiControl_begin_client WifiControl_begin_ap getOperationMode_def)
  have c: "equalsIgnoreCase configured ''true'' \<longrightarrow>
        newCalls p (snd (WifiControl_begin essid password configured host apSecret (w, p)))
          = [WiFiOnEvent, WiFiBegin essid password, WiFiSetHostname host]"
    by (simp add: WifiControl_begin_client newCalls_def)
  have e: "getOperationMode (fst (WifiControl_begin essid password [] host apSecret (w, p)))
        = accessPoint"
    by (simp add: WifiControl_begin_ap [OF empty] getOperationMode_def)
  from m c e equalsIgnoreCase_true [of configured] show ?thesis by blast
qed

theorem WifiControl_begin_mode_witness:
  "equalsIgnoreCase ''TrUe'' ''true''
   \<and> getOperationMode (fst (WifiControl_begin ''home'' ''pw'' ''TrUe'' ''host'' ''secret12''
        (network (exampleBasecamp ''TrUe''), examplePlatform 0 12))) = client
   \<and> calls (snd (WifiControl_begin ''home'' ''pw'' ''TrUe'' ''host'' ''secret12''
        (network (exampleBasecamp ''TrUe''), examplePlatform 0 12)))
       = [WiFiOnEvent, WiFiBegin ''home'' ''pw'', WiFiSetHostname ''host'']
   \<and> \<not> equalsIgnoreCase ''yes'' ''true''
   \<and> getOperationMode (fst (WifiControl_begin ''home'' ''pw'' ''yes'' ''host'' ''secret12''
        (network (exampleBasecamp ''yes''), examplePlatform 0 12))) = accessPoint"
proof -
  have t: "equalsIgnoreCase ''TrUe'' ''true''" and y: "\<not> equalsIgnoreCase ''yes'' ''true''"
    by (simp_all add: equalsIgnoreCase_def tolower_def)
  have c: "calls (examplePlatform 0 12) = []"
    by (simp add: examplePlatform_def)
  from WifiControl_begin_mode [of "''home''" "''pw''" "''TrUe''" "''host''" "''secret12''"
         "network (exampleBasecamp ''TrUe'')" "examplePlatform 0 12"]
       WifiControl_begin_mode [of "''home''" "''pw''" "''yes''" "''host''" "''secret12''"
         "network (exampleBasecamp ''yes'')" "examplePlatform 0 12"] t y c
  show ?thesis
    by (simp add: newCalls_def)
qed

text \<open>
  C8: when \<open>WifiControl::begin\<close> enters access-point mode, it starts the access point with
  the secret as its password if the secret is not empty, and without a password if it
  is; in both cases it has put the stack into the combined access-point and station mode
  before.
\<close>

theorem WifiControl_begin_accessPoint:
  assumes ap: "getOperationMode (fst (WifiControl_begin essid password configured host
                  apSecret (w, p))) = accessPoint"
    and res: "WifiControl_begin essid password configured host apSecret (w, p) = (w', p')"
  shows "(apSecret \<noteq> [] \<longrightarrow>
            newCalls p p' = [WiFiOnEvent, WiFiMode WIFI_AP_STA,
                             WiFiSoftAP (wifiAPName' w') (Some apSecret)])
       \<and> (apSecret = [] \<longrightarrow>
            newCalls p p' = [WiFiOnEvent, WiFiMode WIFI_AP_STA,
                             WiFiSoftAP (wifiAPName' w') None])
       \<and> WiFiMode WIFI_AP_STA \<in> set (newCalls p p')
       \<and> wifiAPName' w' = (if wifiAPName' w = []
                           then ''ESP32_'' @ getHardwareMacAddress defaultDelimiter p
                           else wifiAPName' w)"
proof -
  have n: "\<not> equalsIgnoreCase configured ''true''"
  proof
    assume "equalsIgnoreCase configured ''true''"
    with ap show False
      by (simp add: WifiControl_begin_client getOperationMode_def)
  qed
  from WifiControl_begin_ap [OF n, of essid password host apSecret w p] res show ?thesis
    by (auto simp: newCalls_def)
qed

theorem WifiControl_begin_accessPoint_witness:
  "getOperationMode (fst (WifiControl_begin ''home'' ''pw'' ''false'' ''host'' ''secret12''
        (network (exampleBasecamp ''false''), examplePlatform 0 12))) = accessPoint
   \<and> calls (snd (WifiControl_begin ''home'' ''pw'' ''false'' ''host'' ''secret12''
        (network (exampleBasecamp ''false''), examplePlatform 0 12)))
       = [WiFiOnEvent, WiFiMode WIFI_AP_STA, WiFiSoftAP ''ESP32_240ac4000110'' (Some ''secret12'')]
   \<and> calls (snd (WifiControl_begin ''home'' ''pw'' ''false'' ''host'' []
        (network (exampleBasecamp ''false''), examplePlatform 0 12)))
       = [WiFiOnEvent, WiFiMode WIFI_AP_STA, WiFiSoftAP ''ESP32_240ac4000110'' None]"
proof -
  let ?s = "(network (exampleBasecamp ''false''), examplePlatform 0 12)"
  let ?r1 = "WifiControl_begin ''home'' ''pw'' ''false'' ''host'' ''secret12'' ?s"
  let ?r2 = "WifiControl_begin ''home'' ''pw'' ''false'' ''host'' [] ?s"
  have n: "\<not> equalsIgnoreCase ''false'' ''true''"
    by (simp add: equalsIgnoreCase_def)
  have a1: "getOperationMode (fst ?r1) = accessPoint" and a2: "getOperationMode (fst ?r2) = accessPoint"
    by (simp_all add: WifiControl_begin_ap [OF n] getOperationMode_def)
  have e1: "?r1 = (fst ?r1, snd ?r1)" and e2: "?r2 = (fst ?r2, snd ?r2)"
    by simp_all
  have c: "calls (examplePlatform 0 12) = []"
    by (simp add: examplePlatform_def)
  have nm: "wifiAPName' (network (exampleBasecamp ''false'')) = []"
    by (simp add: exampleBasecamp_def)
  have mac: "getHardwareMacAddress defaultDelimiter (examplePlatform 0 12) = ''240ac4000110''"
    by (simp add: getHardwareMacAddress_def defaultDelimiter_def examplePlatform_def
          format6Bytes_six spec_hexGroup_def hexDigit_def)
  from WifiControl_begin_accessPoint [OF a1 e1] WifiControl_begin_accessPoint [OF a2 e2] a1 c nm mac
  show ?thesis
    by (simp add: newCalls_def)
qed


section \<open>Properties of the initialisation\<close>

lemma checkResetReason_keeps_encryption:
  "setupModeWifiEncryption' (fst (snd (checkResetReason (b, p)))) = setupModeWifiEncryption' b"
  by (simp add: checkResetReason_def Let_def split_beta)

lemma prologue_encryption:
  "setupModeWifiEncryption' (fst (Basecamp_begin_prologue pw (b, p)))
     = (if length pw \<ge> unat getMinimumSecretLength then secured else setupModeWifiEncryption' b)"
  by (simp add: Basecamp_begin_prologue_def Let_def split_beta getMinimumSecretLength_def minApSecretLength_def)

lemma epilogue_encryption:
  "setupModeWifiEncryption' (fst (Basecamp_begin_epilogue pw (b, p))) = setupModeWifiEncryption' b"
  by (simp add: Basecamp_begin_epilogue_def Let_def split_beta)

lemma prologue_short:
  assumes "length pw < unat getMinimumSecretLength"
  shows "Basecamp_begin_prologue pw s = Basecamp_begin_prologue [] s"
proof -
  from assms have a: "(unat getMinimumSecretLength \<le> length pw) = False"
    by simp
  have b: "(length ([] :: string) \<noteq> 0) = False"
    by simp
  show ?thesis
    unfolding Basecamp_begin_prologue_def a b by (simp only: if_False if_cancel)
qed

lemma epilogue_short:
  assumes "length pw < unat getMinimumSecretLength"
  shows "Basecamp_begin_epilogue pw s = Basecamp_begin_epilogue [] s"
proof -
  from assms have a: "(unat getMinimumSecretLength \<le> length pw) = False"
    "(length pw < unat getMinimumSecretLength) = True"
    by simp_all
  have b: "(unat getMinimumSecretLength \<le> length ([] :: string)) = False"
    "(length ([] :: string) < unat getMinimumSecretLength) = True"
    by (simp_all add: getMinimumSecretLength_def minApSecretLength_def)
  show ?thesis
    unfolding Basecamp_begin_epilogue_def a b by (simp only: if_True)
qed

lemma Basecamp_begin_flow:
  "fst (Basecamp_begin pw s)
     = (if fst (checkResetReason (Basecamp_begin_prologue pw s)) = Restarted
        then None else Some True)"
proof -
  obtain flow b' p' where r: "checkResetReason (Basecamp_begin_prologue pw s) = (flow, b', p')"
    by (cases "checkResetReason (Basecamp_begin_prologue pw s)") auto
  then show ?thesis
    by (cases flow) (simp_all add: Basecamp_begin_def)
qed

lemma prologue_platform:
  "rtc_get_reset_reason (snd (Basecamp_begin_prologue pw (b, p))) = rtc_get_reset_reason p
   \<and> nvs (snd (Basecamp_begin_prologue pw (b, p))) = nvs p"
  by (simp add: Basecamp_begin_prologue_def Let_def split_beta Configuration_reset_def
        Configuration_save_def call_def)

lemma prologue_counter:
  "Preferences_getUInt key d (snd (Basecamp_begin_prologue pw (b, p))) = Preferences_getUInt key d p"
  using prologue_platform [of pw b p] by (simp add: Preferences_getUInt_def)

lemma Basecamp_begin_restarts:
  assumes "rtc_get_reset_reason p = 1 \<or> rtc_get_reset_reason p = 16"
    and "Preferences_getUInt ''bootcounter'' 0 p + 1 > 3"
  shows "fst (Basecamp_begin pw (b, p)) = None"
proof -
  obtain b0 p0 where pr: "Basecamp_begin_prologue pw (b, p) = (b0, p0)"
    by (cases "Basecamp_begin_prologue pw (b, p)") auto
  with prologue_platform [of pw b p] prologue_counter [of "''bootcounter''" 0 pw b p] assms
  have "rtc_get_reset_reason p0 = 1 \<or> rtc_get_reset_reason p0 = 16"
    and "Preferences_getUInt ''bootcounter'' 0 p0 + 1 > 3"
    by simp_all
  then have "fst (checkResetReason (b0, p0)) = Restarted"
    by (simp add: checkResetReason_network)
  with pr show ?thesis
    by (simp add: Basecamp_begin_flow)
qed

lemma Basecamp_begin_continues:
  assumes "(rtc_get_reset_reason p \<noteq> 1 \<and> rtc_get_reset_reason p \<noteq> 16)
           \<or> Preferences_getUInt ''bootcounter'' 0 p + 1 \<le> 2"
  shows "fst (Basecamp_begin pw (b, p)) = Some True"
proof -
  obtain b0 p0 where pr: "Basecamp_begin_prologue pw (b, p) = (b0, p0)"
    by (cases "Basecamp_begin_prologue pw (b, p)") auto
  with prologue_platform [of pw b p] prologue_counter [of "''bootcounter''" 0 pw b p]
  have eq: "rtc_get_reset_reason p0 = rtc_get_reset_reason p"
    "Preferences_getUInt ''bootcounter'' 0 p0 = Preferences_getUInt ''bootcounter'' 0 p"
    by simp_all
  have "fst (checkResetReason (b0, p0)) = Continue"
  proof (cases "rtc_get_reset_reason p \<noteq> 1 \<and> rtc_get_reset_reason p \<noteq> 16")
    case True
    with eq show ?thesis by (simp add: checkResetReason_other)
  next
    case False
    with assms have le: "Preferences_getUInt ''bootcounter'' 0 p + 1 \<le> 2" by blast
    then have "\<not> Preferences_getUInt ''bootcounter'' 0 p + 1 > 3"
      and "\<not> Preferences_getUInt ''bootcounter'' 0 p + 1 > 2"
      by (simp_all add: word_le_nat_alt word_less_nat_alt)
    with False eq have "checkResetReason (b0, p0) =
     (Continue, b0,
      p0\<lparr>nvs := (nvs p0)(''bootcounter'' \<mapsto> Preferences_getUInt ''bootcounter'' 0 p0 + 1),
        calls := calls p0 @ [PrefsBegin ''basecamp'' False,
                            PrefsPutUInt ''bootcounter'' (Preferences_getUInt ''bootcounter'' 0 p0 + 1),
                            PrefsEnd]\<rparr>)"
      by (intro checkResetReason_increment) auto
    then show ?thesis by simp
  qed
  with pr show ?thesis
    by (simp add: Basecamp_begin_flow)
qed

text \<open>
  \<open>Basecamp::begin\<close> does not return \<open>true\<close> for every argument: on a device whose counter
  stands at 3 and which is switched on once more, \<open>checkResetReason\<close> restarts the device
  and \<open>begin\<close> never returns.
\<close>

theorem Basecamp_begin_returns_counterexample:
  "fst (Basecamp_begin [] (exampleBasecamp ''true'', examplePlatform 3 1)) \<noteq> Some True"
proof -
  have "rtc_get_reset_reason (examplePlatform 3 1) = 1 \<or> rtc_get_reset_reason (examplePlatform 3 1) = 16"
    by (simp add: examplePlatform_def)
  moreover have "Preferences_getUInt ''bootcounter'' 0 (examplePlatform 3 1) + 1 > 3"
    by (simp add: examplePlatform_def Preferences_getUInt_def)
  ultimately have "fst (Basecamp_begin [] (exampleBasecamp ''true'', examplePlatform 3 1)) = None"
    by (rule Basecamp_begin_restarts)
  then show ?thesis by simp
qed

text \<open>
  C10, amended: for every password argument, \<open>Basecamp::begin\<close> never returns \<open>false\<close>. It
  returns \<open>true\<close> in every boot in which \<open>checkResetReason\<close> does not restart the device
  (so whenever the reset cause is neither 1 nor 16, or the incremented counter is at most
  2), and it does not return at all when \<open>checkResetReason\<close> restarts (so whenever the
  cause is 1 or 16 and the incremented counter exceeds 3). The setup-mode encryption
  becomes \<open>secured\<close> exactly for a password of at least 8 characters and is unchanged
  otherwise; a password shorter than 8 is treated like no password at all.
\<close>

theorem Basecamp_begin_returns:
  "fst (Basecamp_begin pw (b, p))
     = (if fst (checkResetReason (Basecamp_begin_prologue pw (b, p))) = Restarted
        then None else Some True)
   \<and> fst (Basecamp_begin pw (b, p)) \<noteq> Some False
   \<and> ((rtc_get_reset_reason p \<noteq> 1 \<and> rtc_get_reset_reason p \<noteq> 16)
        \<or> Preferences_getUInt ''bootcounter'' 0 p + 1 \<le> 2 \<longrightarrow>
        fst (Basecamp_begin pw (b, p)) = Some True)
   \<and> ((rtc_get_reset_reason p = 1 \<or> rtc_get_reset_reason p = 16)
        \<and> Preferences_getUInt ''bootcounter'' 0 p + 1 > 3 \<longrightarrow>
        fst (Basecamp_begin pw (b, p)) = None)
   \<and> setupModeWifiEncryption' (fst (snd (Basecamp_begin pw (b, p))))
        = (if length pw \<ge> unat getMinimumSecretLength then secured
           else setupModeWifiEncryption' b)
   \<and> (length pw < unat getMinimumSecretLength \<longrightarrow>
        Basecamp_begin pw (b, p) = Basecamp_begin [] (b, p))"
proof -
  obtain flow b' p' where r: "checkResetReason (Basecamp_begin_prologue pw (b, p)) = (flow, b', p')"
    by (cases "checkResetReason (Basecamp_begin_prologue pw (b, p))") auto
  obtain b0 p0 where pr: "Basecamp_begin_prologue pw (b, p) = (b0, p0)"
    by (cases "Basecamp_begin_prologue pw (b, p)") auto
  note ret = Basecamp_begin_flow [of pw "(b, p)"]
  then have nf: "fst (Basecamp_begin pw (b, p)) \<noteq> Some False"
    by simp
  have enc: "setupModeWifiEncryption' (fst (snd (Basecamp_begin pw (b, p))))
            = (if length pw \<ge> unat getMinimumSecretLength then secured
               else setupModeWifiEncryption' b)"
  proof -
    from checkResetReason_keeps_encryption [of b0 p0] r pr
    have "setupModeWifiEncryption' b' = setupModeWifiEncryption' b0" by simp
    moreover from prologue_encryption [of pw b p] pr
    have "setupModeWifiEncryption' b0
      = (if length pw \<ge> unat getMinimumSecretLength then secured else setupModeWifiEncryption' b)"
      by simp
    ultimately show ?thesis
      using r epilogue_encryption [of pw b' p']
      by (cases flow) (simp_all add: Basecamp_begin_def)
  qed
  have short: "Basecamp_begin pw (b, p) = Basecamp_begin [] (b, p)"
    if "length pw < unat getMinimumSecretLength"
    by (simp only: Basecamp_begin_def prologue_short [OF that] epilogue_short [OF that])
  from ret nf enc short Basecamp_begin_continues [of p pw b] Basecamp_begin_restarts [of p pw b]
  show ?thesis by blast
qed

theorem Basecamp_begin_returns_witness:
  "length ''short'' < unat getMinimumSecretLength
   \<and> fst (Basecamp_begin ''short'' (exampleBasecamp ''true'', examplePlatform 0 1)) = Some True
   \<and> setupModeWifiEncryption' (fst (snd (Basecamp_begin ''short''
        (exampleBasecamp ''true'', examplePlatform 0 1)))) = none
   \<and> fst (Basecamp_begin ''long enough'' (exampleBasecamp ''true'', examplePlatform 3 16)) = None
   \<and> setupModeWifiEncryption' (fst (snd (Basecamp_begin ''long enough''
        (exampleBasecamp ''true'', examplePlatform 0 1)))) = secured"
proof -
  have l: "length ''short'' < unat getMinimumSecretLength"
    "unat getMinimumSecretLength \<le> length ''long enough''"
    by (simp_all add: getMinimumSecretLength_def minApSecretLength_def)
  have c: "Preferences_getUInt ''bootcounter'' 0 (examplePlatform 0 1) + 1 \<le> 2"
    "Preferences_getUInt ''bootcounter'' 0 (examplePlatform 3 16) + 1 > 3"
    by (simp_all add: examplePlatform_def Preferences_getUInt_def)
  have r: "rtc_get_reset_reason (examplePlatform 3 16) = 16"
    by (simp add: examplePlatform_def)
  have e: "setupModeWifiEncryption' (exampleBasecamp ''true'') = none"
    by (simp add: exampleBasecamp_def)
  note t1 = Basecamp_begin_returns [of "''short''" "exampleBasecamp ''true''" "examplePlatform 0 1"]
  note t2 = Basecamp_begin_returns [of "''long enough''" "exampleBasecamp ''true''"
              "examplePlatform 3 16"]
  note t3 = Basecamp_begin_returns [of "''long enough''" "exampleBasecamp ''true''"
              "examplePlatform 0 1"]
  from t1 c(1)
  have a: "fst (Basecamp_begin ''short'' (exampleBasecamp ''true'', examplePlatform 0 1)) = Some True"
    by blast
  from t1 have "setupModeWifiEncryption' (fst (snd (Basecamp_begin ''short''
        (exampleBasecamp ''true'', examplePlatform 0 1))))
      = (if length ''short'' \<ge> unat getMinimumSecretLength then secured
         else setupModeWifiEncryption' (exampleBasecamp ''true''))"
    by blast
  with l(1) e have b: "setupModeWifiEncryption' (fst (snd (Basecamp_begin ''short''
        (exampleBasecamp ''true'', examplePlatform 0 1)))) = none"
    by simp
  from t2 c(2) r
  have d: "fst (Basecamp_begin ''long enough'' (exampleBasecamp ''true'', examplePlatform 3 16)) = None"
    by blast
  from t3 have "setupModeWifiEncryption' (fst (snd (Basecamp_begin ''long enough''
        (exampleBasecamp ''true'', examplePlatform 0 1))))
      = (if length ''long enough'' \<ge> unat getMinimumSecretLength then secured
         else setupModeWifiEncryption' (exampleBasecamp ''true''))"
    by blast
  with l(2) have f: "setupModeWifiEncryption' (fst (snd (Basecamp_begin ''long enough''
        (exampleBasecamp ''true'', examplePlatform 0 1)))) = secured"
    by simp
  from l(1) a b d f show ?thesis by blast
qed


end
